theory Spec2Isabelle
  imports Main "HOL-Library.Word"
begin

section \<open>Python values\<close>

text \<open>
  A Python \<^verbatim>\<open>bytes\<close> object is a list of octets, a Python \<^verbatim>\<open>str\<close> a list of Unicode
  code points, a Python \<^verbatim>\<open>int\<close> an unbounded integer. The exceptions the decoder
  module can raise are values of \<open>error\<close>: \<open>IndexError\<close> for a sequence index out of
  range, \<open>UnicodeDecodeError\<close> for \<^verbatim>\<open>bytes.decode("utf-8")\<close> on ill-formed input and
  \<open>DecodeError\<close> for \<^verbatim>\<open>FromString\<close> on a malformed serialized message.
\<close>

type_synonym bytes = "8 word list"

type_synonym pystr = "nat list"

datatype error = IndexError | UnicodeDecodeError | DecodeError

text \<open>
  \<^verbatim>\<open>bytes.decode("utf-8")\<close> (error handler \<^verbatim>\<open>strict\<close>) is Python's built-in codec. It
  accepts exactly the well-formed byte sequences of the Unicode standard: no overlong
  form, no surrogate, nothing above U+10FFFF. \<open>utf8_scan need acc lo hi bs out\<close> reads
  \<open>bs\<close> with \<open>need\<close> continuation bytes outstanding, the next one within \<open>lo..hi\<close>.
\<close>

fun utf8_scan :: "nat \<Rightarrow> nat \<Rightarrow> 8 word \<Rightarrow> 8 word \<Rightarrow> bytes \<Rightarrow> pystr \<Rightarrow> error + pystr" where
  "utf8_scan need acc lo hi [] out = (if need = 0 then Inr out else Inl UnicodeDecodeError)"
| "utf8_scan need acc lo hi (b # bs) out =
     (if need = 0 then
        (if b < 0x80 then utf8_scan 0 0 0x80 0xBF bs (out @ [unat b])
         else if 0xC2 \<le> b \<and> b \<le> 0xDF then utf8_scan 1 (unat b - 0xC0) 0x80 0xBF bs out
         else if b = 0xE0 then utf8_scan 2 0 0xA0 0xBF bs out
         else if b = 0xED then utf8_scan 2 0xD 0x80 0x9F bs out
         else if 0xE1 \<le> b \<and> b \<le> 0xEF then utf8_scan 2 (unat b - 0xE0) 0x80 0xBF bs out
         else if b = 0xF0 then utf8_scan 3 0 0x90 0xBF bs out
         else if 0xF1 \<le> b \<and> b \<le> 0xF3 then utf8_scan 3 (unat b - 0xF0) 0x80 0xBF bs out
         else if b = 0xF4 then utf8_scan 3 4 0x80 0x8F bs out
         else Inl UnicodeDecodeError)
      else if lo \<le> b \<and> b \<le> hi then
        (if need = 1 then utf8_scan 0 0 0x80 0xBF bs (out @ [acc * 64 + (unat b - 0x80)])
         else utf8_scan (need - 1) (acc * 64 + (unat b - 0x80)) 0x80 0xBF bs out)
      else Inl UnicodeDecodeError)"

definition utf8_decode :: "bytes \<Rightarrow> error + pystr" where
  "utf8_decode bs = utf8_scan 0 0 0x80 0xBF bs []"

text \<open>An ASCII literal as \<^verbatim>\<open>bytes\<close> (\<^verbatim>\<open>b"hi"\<close>) and as \<^verbatim>\<open>str\<close> (\<^verbatim>\<open>"hi"\<close>).\<close>

definition bytes_lit :: "string \<Rightarrow> bytes" where
  "bytes_lit s = map of_char s"

definition str_lit :: "string \<Rightarrow> pystr" where
  "str_lit s = map of_char s"

text \<open>\<^verbatim>\<open>str(n)\<close> of an integer, as the f-string of the debug message formats it.\<close>

fun digits :: "nat \<Rightarrow> string" where
  "digits n =
     (if n < 10 then [''0123456789'' ! n]
      else digits (n div 10) @ [''0123456789'' ! (n mod 10)])"

declare digits.simps [simp del]

definition str_int :: "int \<Rightarrow> string" where
  "str_int i = (if i < 0 then CHR ''-'' # digits (nat (- i)) else digits (nat i))"

section \<open>The protobuf messages\<close>

text \<open>
  Modelled from the spec: the generated protobuf classes of \<^verbatim>\<open>cai.pb\<close> (\<^verbatim>\<open>Msg\<close>, \<^verbatim>\<open>Elem\<close>,
  \<^verbatim>\<open>MsgElemInfo_servtype2\<close>, \<^verbatim>\<open>MsgElemInfo_servtype33\<close>) are not part of the decoder
  module; only the fields the decoder reads are kept. A singular sub-message field is
  \<open>Some\<close> when \<^verbatim>\<open>HasField\<close> holds of it and \<open>None\<close> otherwise. The fields of the three
  undecoded tags carry no data the decoder looks at.
\<close>

record Text =
  str :: bytes

record Face =
  index :: int

record SmallEmoji =
  pack_id_sum :: int
  image_type :: int

record CommonElem =
  service_type :: int
  pb_elem :: bytes

record Elem =
  "text" :: "Text option"
  face :: "Face option"
  small_emoji :: "SmallEmoji option"
  common_elem :: "CommonElem option"
  custom_face :: "unit option"
  not_online_image :: "unit option"
  src_msg :: "unit option"

record MsgElemInfo_servtype2 =
  poke_type :: int
  double_hit :: bool
  vaspoke_id :: int
  vaspoke_name :: bytes
  poke_strength :: int

text \<open>The field \<^verbatim>\<open>index\<close> of \<^verbatim>\<open>MsgElemInfo_servtype33\<close> is \<open>info_index\<close> here.\<close>

record MsgElemInfo_servtype33 =
  info_index :: int

text \<open>
  Reading a sub-message field that is not set yields the default instance of its
  type, whose \<^verbatim>\<open>bytes\<close> fields are empty: this is what \<^verbatim>\<open>elems[index].text\<close> is when the
  record there has no \<^verbatim>\<open>text\<close>.
\<close>

definition get_text :: "Elem \<Rightarrow> Text" where
  "get_text e = (case text e of None \<Rightarrow> \<lparr>str = []\<rparr> | Some t \<Rightarrow> t)"

section \<open>Elements and events\<close>

text \<open>
  Modelled from the spec: the classes of \<^verbatim>\<open>.models\<close>, by their constructor arguments in
  the order the decoder passes them.
\<close>

datatype Element =
  TextElement pystr
| FaceElement int
| SmallEmojiElement int pystr
| PokeElement int pystr int bool

datatype Event =
  PrivateMessage int int bool int pystr int "Element list"

section \<open>\<^verbatim>\<open>parse_elements\<close>\<close>

text \<open>
  The two \<^verbatim>\<open>FromString\<close> class methods are parameters of the model: \<open>fs2\<close> is
  \<^verbatim>\<open>MsgElemInfo_servtype2.FromString\<close> and \<open>fs33\<close> is \<^verbatim>\<open>MsgElemInfo_servtype33.FromString\<close>.
  Each \<^verbatim>\<open>if elem.HasField(...)\<close> of the loop body is one function below, in the order of
  the source; the branches for \<^verbatim>\<open>src_msg\<close>, \<^verbatim>\<open>custom_face\<close> and \<^verbatim>\<open>not_online_image\<close> are
  \<^verbatim>\<open>...\<close> and do nothing.
\<close>

type_synonym servtype2_FromString = "bytes \<Rightarrow> error + MsgElemInfo_servtype2"

type_synonym servtype33_FromString = "bytes \<Rightarrow> error + MsgElemInfo_servtype33"

definition on_text :: "Elem \<Rightarrow> Element list \<Rightarrow> error + Element list" where
  "on_text elem res =
     (case text elem of
        None \<Rightarrow> Inr res
      | Some t \<Rightarrow>
          (case utf8_decode (str t) of
             Inl e \<Rightarrow> Inl e
           | Inr s \<Rightarrow> Inr (res @ [TextElement s])))"

definition on_face :: "Elem \<Rightarrow> Element list \<Rightarrow> Element list" where
  "on_face elem res =
     (case face elem of
        None \<Rightarrow> res
      | Some f \<Rightarrow> res @ [FaceElement (index f)])"

text \<open>
  The \<^verbatim>\<open>small_emoji\<close> branch moves the cursor first and then reads \<^verbatim>\<open>elems[index]\<close>,
  which raises \<^verbatim>\<open>IndexError\<close> past the end (\<open>idx\<close> is the source's \<^verbatim>\<open>index\<close>). It
  returns the moved cursor with the list.
\<close>

definition on_small_emoji ::
  "Elem list \<Rightarrow> Elem \<Rightarrow> nat \<Rightarrow> Element list \<Rightarrow> error + (nat \<times> Element list)" where
  "on_small_emoji elems elem idx res =
     (case small_emoji elem of
        None \<Rightarrow> Inr (idx, res)
      | Some se \<Rightarrow>
          (if idx + 1 < length elems then
             (case utf8_decode (str (get_text (elems ! (idx + 1)))) of
                Inl e \<Rightarrow> Inl e
              | Inr s \<Rightarrow> Inr (idx + 1, res @ [SmallEmojiElement (pack_id_sum se) s]))
           else Inl IndexError))"

text \<open>The \<^verbatim>\<open>common_elem\<close> branch either goes on with the loop or leaves it (\<^verbatim>\<open>break\<close>).\<close>

datatype flow = Continue "Element list" | Break "Element list"

definition on_common_elem ::
  "servtype2_FromString \<Rightarrow> servtype33_FromString \<Rightarrow> Elem \<Rightarrow> Element list \<Rightarrow> error + flow" where
  "on_common_elem fs2 fs33 elem res =
     (case common_elem elem of
        None \<Rightarrow> Inr (Continue res)
      | Some ce \<Rightarrow>
          (if service_type ce = 2 then
             (case fs2 (pb_elem ce) of
                Inl e \<Rightarrow> Inl e
              | Inr poke \<Rightarrow>
                  (case utf8_decode (vaspoke_name poke) of
                     Inl e \<Rightarrow> Inl e
                   | Inr name \<Rightarrow>
                       Inr (Break
                         [PokeElement
                            (if vaspoke_id poke = 0xFFFFFFFF then poke_type poke
                             else vaspoke_id poke)
                            name (poke_strength poke) (double_hit poke)])))
           else if service_type ce = 33 then
             (case fs33 (pb_elem ce) of
                Inl e \<Rightarrow> Inl e
              | Inr info \<Rightarrow> Inr (Continue (res @ [FaceElement (info_index info)])))
           else Inr (Continue res)))"

lemma on_small_emoji_index:
  "on_small_emoji elems elem idx res = Inr (idx', res') \<Longrightarrow> idx \<le> idx'"
  by (auto simp: on_small_emoji_def split: option.splits if_splits sum.splits)

function parse_loop ::
  "servtype2_FromString \<Rightarrow> servtype33_FromString \<Rightarrow> Elem list \<Rightarrow> nat \<Rightarrow> Element list
     \<Rightarrow> error + Element list" where
  "parse_loop fs2 fs33 elems idx res =
     (if idx < length elems then
        (case on_text (elems ! idx) res of
           Inl e \<Rightarrow> Inl e
         | Inr res1 \<Rightarrow>
             (case on_small_emoji elems (elems ! idx) idx (on_face (elems ! idx) res1) of
                Inl e \<Rightarrow> Inl e
              | Inr (idx', res2) \<Rightarrow>
                  (case on_common_elem fs2 fs33 (elems ! idx) res2 of
                     Inl e \<Rightarrow> Inl e
                   | Inr (Break res3) \<Rightarrow> Inr res3
                   | Inr (Continue res3) \<Rightarrow> parse_loop fs2 fs33 elems (idx' + 1) res3)))
      else Inr res)"
  by pat_completeness auto
termination
  by (relation "measure (\<lambda>(fs2, fs33, elems, idx, res). length elems - idx)")
     (auto dest: on_small_emoji_index)

declare parse_loop.simps [simp del]

definition parse_elements ::
  "servtype2_FromString \<Rightarrow> servtype33_FromString \<Rightarrow> Elem list \<Rightarrow> error + Element list" where
  "parse_elements fs2 fs33 elems = parse_loop fs2 fs33 elems 0 []"

section \<open>\<^verbatim>\<open>BuddyMessageDecoder\<close>\<close>

text \<open>
  Modelled from the spec: the protobuf class \<^verbatim>\<open>Msg\<close> of \<^verbatim>\<open>cai.pb\<close> with its head, content head
  and body, reduced to the fields the decoders read. \<^verbatim>\<open>auto_reply\<close> is an integer flag that
  the decoder turns into a truth value with \<^verbatim>\<open>bool(...)\<close>.
\<close>

record MsgHead =
  from_uin :: int
  to_uin :: int
  msg_type :: int
  c2c_cmd :: int
  seq :: int
  time :: int
  from_nick :: pystr

record ContentHead =
  auto_reply :: int

record RichText =
  elems :: "Elem list"

record MsgBody =
  rich_text :: "RichText option"

record Msg =
  head :: MsgHead
  content_head :: "ContentHead option"
  body :: "MsgBody option"

definition decode_normal_buddy ::
  "servtype2_FromString \<Rightarrow> servtype33_FromString \<Rightarrow> Msg \<Rightarrow> error + Event option" where
  "decode_normal_buddy fs2 fs33 message =
     (case body message of
        None \<Rightarrow> Inr None
      | Some b \<Rightarrow>
          (case rich_text b of
             None \<Rightarrow> Inr None
           | Some rt \<Rightarrow>
               (if elems rt = [] then Inr None
                else
                  (case content_head message of
                     None \<Rightarrow> Inr None
                   | Some ch \<Rightarrow>
                       (case parse_elements fs2 fs33 (elems rt) of
                          Inl e \<Rightarrow> Inl e
                        | Inr es \<Rightarrow>
                            Inr (Some (PrivateMessage
                              (seq (head message)) (time (head message)) (auto_reply ch \<noteq> 0)
                              (from_uin (head message)) (from_nick (head message))
                              (to_uin (head message)) es)))))))"

text \<open>
  \<^verbatim>\<open>logger.debug\<close> is the only effect of the module: \<open>decode\<close> returns the records it
  logged together with its result.
\<close>

datatype log_record = Debug string

definition sub_decoders ::
  "servtype2_FromString \<Rightarrow> servtype33_FromString \<Rightarrow> int \<rightharpoonup> (Msg \<Rightarrow> error + Event option)" where
  "sub_decoders fs2 fs33 =
     map_of [(11, decode_normal_buddy fs2 fs33), (175, decode_normal_buddy fs2 fs33)]"

definition decode ::
  "servtype2_FromString \<Rightarrow> servtype33_FromString \<Rightarrow> Msg
     \<Rightarrow> log_record list \<times> (error + Event option)" where
  "decode fs2 fs33 message =
     (case sub_decoders fs2 fs33 (c2c_cmd (head message)) of
        None \<Rightarrow>
          ([Debug (''MessageSvc.PbGetMsg: BuddyMessageDecoder cannot ''
                   @ ''decode message with c2c_cmd '' @ str_int (c2c_cmd (head message)))],
           Inr None)
      | Some Decoder \<Rightarrow> ([], Decoder message))"

definition MESSAGE_DECODERS ::
  "servtype2_FromString \<Rightarrow> servtype33_FromString
     \<Rightarrow> int \<rightharpoonup> (Msg \<Rightarrow> log_record list \<times> (error + Event option))" where
  "MESSAGE_DECODERS fs2 fs33 =
     map_of
       [(9, decode fs2 fs33), (10, decode fs2 fs33), (31, decode fs2 fs33),
        (79, decode fs2 fs33), (97, decode fs2 fs33), (120, decode fs2 fs33),
        (132, decode fs2 fs33), (133, decode fs2 fs33), (166, decode fs2 fs33),
        (167, decode fs2 fs33)]"

section \<open>Notions of the statements\<close>

text \<open>A \<^verbatim>\<open>common_elem\<close> record with \<^verbatim>\<open>service_type == 2\<close> (a poke).\<close>

definition is_poke :: "Elem \<Rightarrow> bool" where
  "is_poke e = (case common_elem e of None \<Rightarrow> False | Some ce \<Rightarrow> service_type ce = 2)"

text \<open>
  \<open>source_of fs2 fs33 xs j x\<close>: the element \<open>x\<close> is what one of the branches builds from
  the record at position \<open>j\<close> of \<open>xs\<close> (for a \<open>SmallEmojiElement\<close>, from the record at
  \<open>j\<close> and the caption slot after it).
\<close>

definition source_of ::
  "servtype2_FromString \<Rightarrow> servtype33_FromString \<Rightarrow> Elem list \<Rightarrow> nat \<Rightarrow> Element \<Rightarrow> bool" where
  "source_of fs2 fs33 xs j x =
     (j < length xs \<and>
      (case x of
         TextElement s \<Rightarrow>
           (case text (xs ! j) of None \<Rightarrow> False | Some t \<Rightarrow> utf8_decode (str t) = Inr s)
       | FaceElement n \<Rightarrow>
           (case face (xs ! j) of None \<Rightarrow> False | Some f \<Rightarrow> n = index f) \<or>
           (case common_elem (xs ! j) of
              None \<Rightarrow> False
            | Some ce \<Rightarrow>
                service_type ce = 33 \<and>
                (case fs33 (pb_elem ce) of Inl _ \<Rightarrow> False | Inr info \<Rightarrow> n = info_index info))
       | SmallEmojiElement p s \<Rightarrow>
           (case small_emoji (xs ! j) of
              None \<Rightarrow> False
            | Some se \<Rightarrow>
                p = pack_id_sum se \<and> j + 1 < length xs \<and>
                utf8_decode (str (get_text (xs ! (j + 1)))) = Inr s)
       | PokeElement p name st dh \<Rightarrow>
           (case common_elem (xs ! j) of
              None \<Rightarrow> False
            | Some ce \<Rightarrow>
                service_type ce = 2 \<and>
                (case fs2 (pb_elem ce) of
                   Inl _ \<Rightarrow> False
                 | Inr poke \<Rightarrow>
                     p = (if vaspoke_id poke = 0xFFFFFFFF then poke_type poke
                          else vaspoke_id poke) \<and>
                     utf8_decode (vaspoke_name poke) = Inr name \<and>
                     st = poke_strength poke \<and> dh = double_hit poke))))"

text \<open>
  The invariant of the loop for the order of the result: every element accumulated so
  far has a source record, the sources are in ascending order, and none lies beyond
  the cursor.
\<close>

definition traced ::
  "servtype2_FromString \<Rightarrow> servtype33_FromString \<Rightarrow> Elem list \<Rightarrow> nat \<Rightarrow> Element list \<Rightarrow> bool" where
  "traced fs2 fs33 xs i res =
     (\<exists>js. list_all2 (source_of fs2 fs33 xs) js res \<and> sorted js \<and> (\<forall>j\<in>set js. j \<le> i))"

section \<open>Sample inputs\<close>

text \<open>
  \<open>Elem0\<close> is \<^verbatim>\<open>Elem()\<close>, the record with no field set. \<open>reads_as m\<close> stands for a
  \<^verbatim>\<open>FromString\<close> under which the payload at hand decodes to the message \<open>m\<close>; \<open>poke_P\<close> is
  the poke payload of the override example and \<open>sample_fs2\<close>, \<open>sample_fs33\<close> are the two
  decoders of the concrete instances below.
\<close>

definition Elem0 :: Elem where
  "Elem0 = \<lparr>text = None, face = None, small_emoji = None, common_elem = None,
            custom_face = None, not_online_image = None, src_msg = None\<rparr>"

definition reads_as :: "'m \<Rightarrow> bytes \<Rightarrow> error + 'm" where
  "reads_as m b = Inr m"

definition poke_P :: MsgElemInfo_servtype2 where
  "poke_P = \<lparr>poke_type = 5, double_hit = False, vaspoke_id = 0xFFFFFFFF,
             vaspoke_name = bytes_lit ''Poke'', poke_strength = 1\<rparr>"

definition sample_fs2 :: servtype2_FromString where
  "sample_fs2 = reads_as poke_P"

definition sample_fs33 :: servtype33_FromString where
  "sample_fs33 = reads_as \<lparr>info_index = 9\<rparr>"

definition poke_99 :: MsgElemInfo_servtype2 where
  "poke_99 = \<lparr>poke_type = 5, double_hit = False, vaspoke_id = 99,
              vaspoke_name = bytes_lit ''Poke'', poke_strength = 1\<rparr>"

text \<open>
  The records \<^verbatim>\<open>text(b)\<close>, \<^verbatim>\<open>face(n)\<close>, \<^verbatim>\<open>small_emoji(pack_id=p)\<close> and
  \<^verbatim>\<open>common_elem(service_type=t, payload=pb)\<close>, each with one field set.
\<close>

definition text_rec :: "bytes \<Rightarrow> Elem" where
  "text_rec b = Elem0\<lparr>text := Some \<lparr>str = b\<rparr>\<rparr>"

definition face_rec :: "int \<Rightarrow> Elem" where
  "face_rec n = Elem0\<lparr>face := Some \<lparr>index = n\<rparr>\<rparr>"

definition small_emoji_rec :: "int \<Rightarrow> Elem" where
  "small_emoji_rec p = Elem0\<lparr>small_emoji := Some \<lparr>pack_id_sum = p, image_type = 0\<rparr>\<rparr>"

definition common_elem_rec :: "int \<Rightarrow> bytes \<Rightarrow> Elem" where
  "common_elem_rec t pb = Elem0\<lparr>common_elem := Some \<lparr>service_type = t, pb_elem = pb\<rparr>\<rparr>"

text \<open>A message with a content head, a body and the given content elements.\<close>

definition sample_head :: MsgHead where
  "sample_head = \<lparr>from_uin = 10001, to_uin = 10002, msg_type = 166, c2c_cmd = 11, seq = 7,
                  time = 1600000000, from_nick = str_lit ''nick''\<rparr>"

definition sample_msg :: "Elem list \<Rightarrow> Msg" where
  "sample_msg es =
     \<lparr>head = sample_head, content_head = Some \<lparr>auto_reply = 1\<rparr>,
      body = Some \<lparr>rich_text = Some \<lparr>elems = es\<rparr>\<rparr>\<rparr>"

section \<open>Evaluation of the samples\<close>

lemma utf8_decode_Nil: "utf8_decode [] = Inr []"
  by (simp add: utf8_decode_def)

lemma utf8_decode_a: "utf8_decode (bytes_lit ''a'') = Inr (str_lit ''a'')"
  by (simp add: utf8_decode_def bytes_lit_def str_lit_def)

lemma utf8_decode_x: "utf8_decode (bytes_lit ''x'') = Inr (str_lit ''x'')"
  by (simp add: utf8_decode_def bytes_lit_def str_lit_def)

lemma utf8_decode_hi: "utf8_decode (bytes_lit ''hi'') = Inr (str_lit ''hi'')"
  by (simp add: utf8_decode_def bytes_lit_def str_lit_def)

lemma utf8_decode_Poke: "utf8_decode (bytes_lit ''Poke'') = Inr (str_lit ''Poke'')"
  by (simp add: utf8_decode_def bytes_lit_def str_lit_def)

lemma utf8_decode_caption: "utf8_decode (bytes_lit ''caption'') = Inr (str_lit ''caption'')"
  by (simp add: utf8_decode_def bytes_lit_def str_lit_def)

lemmas utf8_samples =
  utf8_decode_Nil utf8_decode_a utf8_decode_x utf8_decode_hi utf8_decode_Poke utf8_decode_caption

lemmas sample_defs =
  Elem0_def text_rec_def face_rec_def small_emoji_rec_def common_elem_rec_def
  reads_as_def sample_fs2_def sample_fs33_def poke_P_def poke_99_def

lemmas branch_defs =
  on_text_def on_face_def on_small_emoji_def on_common_elem_def get_text_def

lemmas run_defs = parse_elements_def parse_loop.simps branch_defs sample_defs utf8_samples

section \<open>The loop, one iteration at a time\<close>

lemma parse_loop_end: "\<not> i < length xs \<Longrightarrow> parse_loop fs2 fs33 xs i res = Inr res"
  by (subst parse_loop.simps) simp

lemma parse_loop_step:
  assumes "i < length xs"
    and "on_text (xs ! i) res = Inr res1"
    and "on_small_emoji xs (xs ! i) i (on_face (xs ! i) res1) = Inr (i', res2)"
    and "on_common_elem fs2 fs33 (xs ! i) res2 = Inr (Continue res3)"
  shows "parse_loop fs2 fs33 xs i res = parse_loop fs2 fs33 xs (i' + 1) res3"
  using assms by (subst parse_loop.simps) simp

lemma parse_loop_break:
  assumes "i < length xs"
    and "on_text (xs ! i) res = Inr res1"
    and "on_small_emoji xs (xs ! i) i (on_face (xs ! i) res1) = Inr (i', res2)"
    and "on_common_elem fs2 fs33 (xs ! i) res2 = Inr (Break res3)"
  shows "parse_loop fs2 fs33 xs i res = Inr res3"
  using assms by (subst parse_loop.simps) simp

text \<open>A result of the loop at a record means that each branch of the iteration returned.\<close>

lemma parse_loop_InrE:
  assumes "parse_loop fs2 fs33 xs i res = Inr r" and "i < length xs"
  obtains res1 i' res2 fl where
    "on_text (xs ! i) res = Inr res1"
    "on_small_emoji xs (xs ! i) i (on_face (xs ! i) res1) = Inr (i', res2)"
    "on_common_elem fs2 fs33 (xs ! i) res2 = Inr fl"
  using assms by (subst (asm) parse_loop.simps) (auto split: sum.splits)

lemma on_small_emoji_cases:
  assumes "on_small_emoji xs e i res = Inr (i', res')"
  shows "(small_emoji e = None \<and> i' = i \<and> res' = res) \<or>
         (i' = i + 1 \<and> i + 1 < length xs \<and>
          (\<exists>se s. small_emoji e = Some se \<and>
                  utf8_decode (str (get_text (xs ! (i + 1)))) = Inr s \<and>
                  res' = res @ [SmallEmojiElement (pack_id_sum se) s]))"
  using assms by (auto simp: on_small_emoji_def split: option.splits if_splits sum.splits)

lemma on_small_emoji_append:
  assumes "on_small_emoji xs e i res = Inr p"
  shows "on_small_emoji (xs @ ys) e i res = Inr p"
  using assms
  by (auto simp: on_small_emoji_def nth_append split: option.splits if_splits sum.splits)

lemma on_common_elem_no_poke:
  "\<not> is_poke e \<Longrightarrow> on_common_elem fs2 fs33 e res \<noteq> Inr (Break r)"
  by (auto simp: on_common_elem_def is_poke_def split: option.splits sum.splits)

section \<open>A prefix that is scanned to its end\<close>

text \<open>
  When the scan of \<open>xs\<close> alone returns a list and \<open>xs\<close> holds no poke, the scan of
  \<open>xs @ ys\<close> arrives at the first record of \<open>ys\<close> with that list accumulated.
\<close>

lemma parse_loop_prefix:
  assumes "parse_loop fs2 fs33 xs i res = Inr r"
    and "\<forall>e\<in>set xs. \<not> is_poke e" and "i \<le> length xs"
  shows "parse_loop fs2 fs33 (xs @ ys) i res = parse_loop fs2 fs33 (xs @ ys) (length xs) r"
  using assms
proof (induction fs2 fs33 xs i res rule: parse_loop.induct)
  case (1 fs2 fs33 xs i res)
  show ?case
  proof (cases "i < length xs")
    case False
    with "1.prems" have "i = length xs" by simp
    moreover from False "1.prems"(1) have "r = res" by (simp add: parse_loop_end)
    ultimately show ?thesis by simp
  next
    case True
    let ?e = "xs ! i"
    from True have np: "\<not> is_poke ?e" using "1.prems"(2) by simp
    from "1.prems"(1) True obtain res1 i' res2 fl where
      t: "on_text ?e res = Inr res1" and
      s: "on_small_emoji xs ?e i (on_face ?e res1) = Inr (i', res2)" and
      c: "on_common_elem fs2 fs33 ?e res2 = Inr fl"
      by (rule parse_loop_InrE)
    from c np obtain res3 where fl: "fl = Continue res3"
      by (cases fl) (auto dest: on_common_elem_no_poke)
    from "1.prems"(1) have rest: "parse_loop fs2 fs33 xs (i' + 1) res3 = Inr r"
      using parse_loop_step[OF True t s c[unfolded fl]] by simp
    from on_small_emoji_cases[OF s] True have le: "i' + 1 \<le> length xs" by auto
    have IH: "parse_loop fs2 fs33 (xs @ ys) (i' + 1) res3 =
              parse_loop fs2 fs33 (xs @ ys) (length xs) r"
      using "1.IH"[OF True t s refl c[unfolded fl] refl rest "1.prems"(2) le] by simp
    have e: "(xs @ ys) ! i = ?e" using True by (simp add: nth_append)
    have "parse_loop fs2 fs33 (xs @ ys) i res = parse_loop fs2 fs33 (xs @ ys) (i' + 1) res3"
      using True t c[unfolded fl] on_small_emoji_append[OF s, of ys]
      by (subst parse_loop.simps) (simp add: e)
    with IH show ?thesis by simp
  qed
qed

lemma parse_elements_prefix:
  assumes "parse_elements fs2 fs33 xs = Inr r" and "\<forall>e\<in>set xs. \<not> is_poke e"
  shows "parse_elements fs2 fs33 (xs @ ys) = parse_loop fs2 fs33 (xs @ ys) (length xs) r"
  using parse_loop_prefix[of fs2 fs33 xs 0 "[]" r ys] assms by (simp add: parse_elements_def)

section \<open>The scan of a suffix\<close>

lemma parse_loop_unfold:
  "i < length xs \<Longrightarrow>
   parse_loop fs2 fs33 xs i res =
     (case on_text (xs ! i) res of
        Inl e \<Rightarrow> Inl e
      | Inr res1 \<Rightarrow>
          (case on_small_emoji xs (xs ! i) i (on_face (xs ! i) res1) of
             Inl e \<Rightarrow> Inl e
           | Inr (i', res2) \<Rightarrow>
               (case on_common_elem fs2 fs33 (xs ! i) res2 of
                  Inl e \<Rightarrow> Inl e
                | Inr (Break res3) \<Rightarrow> Inr res3
                | Inr (Continue res3) \<Rightarrow> parse_loop fs2 fs33 xs (i' + 1) res3)))"
  by (subst parse_loop.simps) simp

text \<open>The scan of \<open>ys\<close> inside \<open>xs @ ys\<close> is the scan of \<open>ys\<close>.\<close>

lemma on_small_emoji_shift:
  "on_small_emoji (xs @ ys) e (length xs + j) res =
     (case on_small_emoji ys e j res of
        Inl err \<Rightarrow> Inl err
      | Inr (j', r) \<Rightarrow> Inr (length xs + j', r))"
  by (auto simp: on_small_emoji_def nth_append split: option.splits sum.splits)

lemma parse_loop_shift:
  "parse_loop fs2 fs33 (xs @ ys) (length xs + j) res = parse_loop fs2 fs33 ys j res"
proof (induction fs2 fs33 ys j res rule: parse_loop.induct)
  case (1 fs2 fs33 ys j res)
  show ?case
  proof (cases "j < length ys")
    case False
    then show ?thesis by (simp add: parse_loop_end)
  next
    case True
    have e: "(xs @ ys) ! (length xs + j) = ys ! j" by (simp add: nth_append)
    have l: "length xs + j < length (xs @ ys)" using True by simp
    show ?thesis
      using "1.IH"[OF True]
      by (auto simp: parse_loop_unfold[OF True] parse_loop_unfold[OF l] e on_small_emoji_shift
               add.assoc split: sum.splits flow.splits)
  qed
qed

text \<open>Without a poke, a list accumulated before the scan stays in front of the result.\<close>

lemma on_text_acc:
  "on_text e (a @ res) = (case on_text e res of Inl err \<Rightarrow> Inl err | Inr r \<Rightarrow> Inr (a @ r))"
  by (simp add: on_text_def split: option.splits sum.splits)

lemma on_face_acc: "on_face e (a @ res) = a @ on_face e res"
  by (simp add: on_face_def split: option.splits)

lemma on_small_emoji_acc:
  "on_small_emoji xs e i (a @ res) =
     (case on_small_emoji xs e i res of Inl err \<Rightarrow> Inl err | Inr (i', r) \<Rightarrow> Inr (i', a @ r))"
  by (simp add: on_small_emoji_def split: option.splits sum.splits)

lemma on_common_elem_acc:
  "\<not> is_poke e \<Longrightarrow>
   on_common_elem fs2 fs33 e (a @ res) =
     (case on_common_elem fs2 fs33 e res of
        Inl err \<Rightarrow> Inl err
      | Inr (Continue r) \<Rightarrow> Inr (Continue (a @ r))
      | Inr (Break r) \<Rightarrow> Inr (Break r))"
  by (simp add: on_common_elem_def is_poke_def split: option.splits sum.splits)

lemma parse_loop_acc:
  assumes "\<forall>e\<in>set xs. \<not> is_poke e"
  shows "parse_loop fs2 fs33 xs i (a @ res) =
         (case parse_loop fs2 fs33 xs i res of Inl err \<Rightarrow> Inl err | Inr r \<Rightarrow> Inr (a @ r))"
  using assms
proof (induction fs2 fs33 xs i res rule: parse_loop.induct)
  case (1 fs2 fs33 xs i res)
  show ?case
  proof (cases "i < length xs")
    case False
    then show ?thesis by (simp add: parse_loop_end)
  next
    case True
    then have np: "\<not> is_poke (xs ! i)" using "1.prems" by simp
    show ?thesis
      using "1.IH"[OF True] "1.prems" on_common_elem_no_poke[OF np]
      by (auto simp: parse_loop_unfold[OF True] on_text_acc on_face_acc on_small_emoji_acc
               on_common_elem_acc[OF np] split: sum.splits flow.splits)
  qed
qed

lemma parse_elements_append:
  assumes "\<forall>e\<in>set (ys @ zs). \<not> is_poke e"
    and "parse_elements fs2 fs33 ys = Inr ry" and "parse_elements fs2 fs33 zs = Inr rz"
  shows "parse_elements fs2 fs33 (ys @ zs) = Inr (ry @ rz)"
proof -
  have "parse_elements fs2 fs33 (ys @ zs) = parse_loop fs2 fs33 (ys @ zs) (length ys) ry"
    using assms(1,2) by (intro parse_elements_prefix) auto
  also have "\<dots> = parse_loop fs2 fs33 zs 0 (ry @ [])"
    using parse_loop_shift[of fs2 fs33 ys zs 0 ry] by simp
  also have "\<dots> = Inr (ry @ rz)"
    using assms(1,3) by (subst parse_loop_acc) (auto simp: parse_elements_def)
  finally show ?thesis .
qed

section \<open>The poke branch\<close>

text \<open>
  Claim C1, as amended. Let a sequence be \<open>pre @ p # post\<close>, where \<open>p\<close> is a
  \<^verbatim>\<open>common_elem\<close> record with \<^verbatim>\<open>service_type == 2\<close> (with no \<^verbatim>\<open>small_emoji\<close> set, and a
  \<^verbatim>\<open>text\<close> payload, if any, that decodes) whose payload and name decode, no record of
  \<open>pre\<close> is a poke, and the scan of \<open>pre\<close> alone returns a list, so that the cursor
  arrives at \<open>p\<close>. Then the parser returns
  exactly the one \<open>PokeElement\<close> built from the payload of \<open>p\<close>: whatever \<open>pre\<close> had
  emitted is discarded and no record of \<open>post\<close> contributes.
\<close>

theorem poke_replaces_and_stops:
  assumes "parse_elements fs2 fs33 pre = Inr r"
    and "\<forall>e\<in>set pre. \<not> is_poke e"
    and "common_elem p = Some ce" and "service_type ce = 2"
    and "case text p of None \<Rightarrow> True | Some t \<Rightarrow> utf8_decode (str t) = Inr s"
    and "small_emoji p = None"
    and "fs2 (pb_elem ce) = Inr poke" and "utf8_decode (vaspoke_name poke) = Inr name"
  shows "parse_elements fs2 fs33 (pre @ p # post) =
         Inr [PokeElement
                (if vaspoke_id poke = 0xFFFFFFFF then poke_type poke else vaspoke_id poke)
                name (poke_strength poke) (double_hit poke)]"
proof -
  have "parse_elements fs2 fs33 (pre @ p # post) =
        parse_loop fs2 fs33 (pre @ p # post) (length pre) r"
    using assms(1,2) by (rule parse_elements_prefix)
  also have "\<dots> =
        Inr [PokeElement
               (if vaspoke_id poke = 0xFFFFFFFF then poke_type poke else vaspoke_id poke)
               name (poke_strength poke) (double_hit poke)]"
    using assms(3-8)
    by (subst parse_loop.simps)
       (simp add: on_text_def on_small_emoji_def on_common_elem_def split: option.splits)
  finally show ?thesis .
qed

theorem poke_replaces_and_stops_witness:
  "parse_elements sample_fs2 sample_fs33 [text_rec (bytes_lit ''a'')] =
     Inr [TextElement (str_lit ''a'')] \<and>
   parse_elements sample_fs2 sample_fs33
     ([text_rec (bytes_lit ''a'')] @ common_elem_rec 2 [] # [face_rec 7]) =
     Inr [PokeElement 5 (str_lit ''Poke'') 1 False]"
proof -
  have h1: "parse_elements sample_fs2 sample_fs33 [text_rec (bytes_lit ''a'')] =
            Inr [TextElement (str_lit ''a'')]"
    by (simp add: run_defs)
  have h2: "\<forall>e\<in>set [text_rec (bytes_lit ''a'')]. \<not> is_poke e"
    by (simp add: is_poke_def sample_defs)
  have h3: "common_elem (common_elem_rec 2 []) = Some \<lparr>service_type = 2, pb_elem = []\<rparr>"
    by (simp add: sample_defs)
  have h4: "service_type \<lparr>service_type = 2, pb_elem = []\<rparr> = 2"
    by simp
  have h5: "case text (common_elem_rec 2 []) of
              None \<Rightarrow> True
            | Some t \<Rightarrow> utf8_decode (str t) = Inr []"
    by (simp add: sample_defs)
  have h6: "small_emoji (common_elem_rec 2 []) = None"
    by (simp add: sample_defs)
  have h7: "sample_fs2 (pb_elem \<lparr>service_type = 2, pb_elem = []\<rparr>) = Inr poke_P"
    by (simp add: sample_fs2_def reads_as_def)
  have h8: "utf8_decode (vaspoke_name poke_P) = Inr (str_lit ''Poke'')"
    by (simp add: poke_P_def utf8_decode_Poke)
  show ?thesis
    using h1 poke_replaces_and_stops[OF h1 h2 h3 h4 h5 h6 h7 h8, of "[face_rec 7]"]
    by (simp add: poke_P_def)
qed

text \<open>
  The claim as stated fails: a poke record right after a \<^verbatim>\<open>small_emoji\<close> record is read as
  that record's caption slot and skipped, so the result is not a \<open>PokeElement\<close>.
\<close>

theorem poke_after_small_emoji_skipped:
  "parse_elements sample_fs2 sample_fs33 [small_emoji_rec 1, common_elem_rec 2 []] =
     Inr [SmallEmojiElement 1 []]"
  by (simp add: run_defs)

text \<open>
  Claim C2. Let the cursor be at a \<^verbatim>\<open>common_elem\<close> record with \<^verbatim>\<open>service_type == 2\<close> whose
  payload decodes to \<open>poke\<close>. If the name of the payload decodes, the \<^verbatim>\<open>text\<close> payload of
  the record, when set, decodes and, when \<^verbatim>\<open>small_emoji\<close> is set on the record, the caption
  slot exists and decodes, then the parser returns the single \<open>PokeElement\<close> whose
  identifier is \<^verbatim>\<open>poke_type\<close> when \<^verbatim>\<open>vaspoke_id == 0xFFFFFFFF\<close> and \<^verbatim>\<open>vaspoke_id\<close> for every
  other value, with the name, strength and double-hit flag of the payload. Conversely,
  whatever the iteration at such a record returns is that element.
\<close>

theorem poke_identifier:
  assumes "i < length xs"
    and "common_elem (xs ! i) = Some ce" and "service_type ce = 2"
    and "fs2 (pb_elem ce) = Inr poke"
  shows "(utf8_decode (vaspoke_name poke) = Inr name \<and>
          (case text (xs ! i) of None \<Rightarrow> True | Some t \<Rightarrow> utf8_decode (str t) = Inr s) \<and>
          (case small_emoji (xs ! i) of
             None \<Rightarrow> True
           | Some se \<Rightarrow>
               i + 1 < length xs \<and> utf8_decode (str (get_text (xs ! (i + 1)))) = Inr c) \<longrightarrow>
          parse_loop fs2 fs33 xs i res =
            Inr [PokeElement
                   (if vaspoke_id poke = 0xFFFFFFFF then poke_type poke else vaspoke_id poke)
                   name (poke_strength poke) (double_hit poke)]) \<and>
         (parse_loop fs2 fs33 xs i res = Inr r \<longrightarrow>
          (\<exists>name. utf8_decode (vaspoke_name poke) = Inr name \<and>
             r = [PokeElement
                    (if vaspoke_id poke = 0xFFFFFFFF then poke_type poke else vaspoke_id poke)
                    name (poke_strength poke) (double_hit poke)]))"
proof (intro conjI impI)
  assume ok: "utf8_decode (vaspoke_name poke) = Inr name \<and>
          (case text (xs ! i) of None \<Rightarrow> True | Some t \<Rightarrow> utf8_decode (str t) = Inr s) \<and>
          (case small_emoji (xs ! i) of
             None \<Rightarrow> True
           | Some se \<Rightarrow>
               i + 1 < length xs \<and> utf8_decode (str (get_text (xs ! (i + 1)))) = Inr c)"
  show "parse_loop fs2 fs33 xs i res =
            Inr [PokeElement
                   (if vaspoke_id poke = 0xFFFFFFFF then poke_type poke else vaspoke_id poke)
                   name (poke_strength poke) (double_hit poke)]"
    using ok assms
    by (simp add: parse_loop_unfold on_text_def on_small_emoji_def on_common_elem_def
          split: option.splits)
next
  assume "parse_loop fs2 fs33 xs i res = Inr r"
  then show "\<exists>name. utf8_decode (vaspoke_name poke) = Inr name \<and>
             r = [PokeElement
                    (if vaspoke_id poke = 0xFFFFFFFF then poke_type poke else vaspoke_id poke)
                    name (poke_strength poke) (double_hit poke)]"
    using assms
    by (subst (asm) parse_loop.simps) (auto simp: on_common_elem_def split: sum.splits)
qed

theorem poke_identifier_witness:
  "parse_loop sample_fs2 sample_fs33 [common_elem_rec 2 []] 0 [] =
     Inr [PokeElement 5 (str_lit ''Poke'') 1 False] \<and>
   parse_loop (reads_as poke_99) sample_fs33 [common_elem_rec 2 []] 0 [] =
     Inr [PokeElement 99 (str_lit ''Poke'') 1 False]"
proof -
  let ?xs = "[common_elem_rec 2 []]"
  have h1: "0 < length ?xs"
    by simp
  have h2: "common_elem (?xs ! 0) = Some \<lparr>service_type = 2, pb_elem = []\<rparr>"
    by (simp add: sample_defs)
  have h3: "service_type \<lparr>service_type = 2, pb_elem = []\<rparr> = 2"
    by simp
  have a4: "sample_fs2 (pb_elem \<lparr>service_type = 2, pb_elem = []\<rparr>) = Inr poke_P"
    by (simp add: sample_fs2_def reads_as_def)
  have b4: "reads_as poke_99 (pb_elem \<lparr>service_type = 2, pb_elem = []\<rparr>) = Inr poke_99"
    by (simp add: reads_as_def)
  have a5: "utf8_decode (vaspoke_name poke_P) = Inr (str_lit ''Poke'') \<and>
            (case text (?xs ! 0) of None \<Rightarrow> True | Some t \<Rightarrow> utf8_decode (str t) = Inr []) \<and>
            (case small_emoji (?xs ! 0) of
               None \<Rightarrow> True
             | Some se \<Rightarrow>
                 0 + 1 < length ?xs \<and> utf8_decode (str (get_text (?xs ! (0 + 1)))) = Inr [])"
    by (simp add: sample_defs utf8_decode_Poke)
  have b5: "utf8_decode (vaspoke_name poke_99) = Inr (str_lit ''Poke'') \<and>
            (case text (?xs ! 0) of None \<Rightarrow> True | Some t \<Rightarrow> utf8_decode (str t) = Inr []) \<and>
            (case small_emoji (?xs ! 0) of
               None \<Rightarrow> True
             | Some se \<Rightarrow>
                 0 + 1 < length ?xs \<and> utf8_decode (str (get_text (?xs ! (0 + 1)))) = Inr [])"
    by (simp add: sample_defs utf8_decode_Poke)
  show ?thesis
    using
      poke_identifier[where ?fs2.0 = sample_fs2 and ?fs33.0 = sample_fs33 and res = "[]",
        OF h1 h2 h3 a4, THEN conjunct1, THEN mp, OF a5]
      poke_identifier[where ?fs2.0 = "reads_as poke_99" and ?fs33.0 = sample_fs33 and res = "[]",
        OF h1 h2 h3 b4, THEN conjunct1, THEN mp, OF b5]
    by (simp add: poke_P_def poke_99_def)
qed

section \<open>The normal-buddy decoder\<close>

text \<open>
  Claim C3, as amended. The decoder returns no event, without raising, exactly when
  the content head is absent or the content-element sequence is absent or empty. When
  both are present it runs the parser on the sequence: if the parser returns a list,
  the decoder returns a \<open>PrivateMessage\<close> with the sequence number, time, sender, nickname
  and receiver of the head, the truth value of the content head's auto-reply flag and
  that list; if the parser raises, the decoder raises the same error.
\<close>

theorem decode_normal_buddy_event:
  "(decode_normal_buddy fs2 fs33 m = Inr None) =
     (content_head m = None \<or> body m = None \<or>
      (\<exists>b. body m = Some b \<and>
           (rich_text b = None \<or> (\<exists>rt. rich_text b = Some rt \<and> elems rt = [])))) \<and>
   (body m = Some b \<and> rich_text b = Some rt \<and> elems rt \<noteq> [] \<and> content_head m = Some ch \<longrightarrow>
      decode_normal_buddy fs2 fs33 m =
        (case parse_elements fs2 fs33 (elems rt) of
           Inl e \<Rightarrow> Inl e
         | Inr es \<Rightarrow>
             Inr (Some (PrivateMessage (seq (head m)) (time (head m)) (auto_reply ch \<noteq> 0)
                          (from_uin (head m)) (from_nick (head m)) (to_uin (head m)) es))))"
  by (auto simp: decode_normal_buddy_def split: option.splits sum.splits)

theorem decode_normal_buddy_event_witness:
  "decode_normal_buddy sample_fs2 sample_fs33 (sample_msg [text_rec (bytes_lit ''hi'')]) =
     Inr (Some (PrivateMessage 7 1600000000 True 10001 (str_lit ''nick'') 10002
                  [TextElement (str_lit ''hi'')])) \<and>
   decode_normal_buddy sample_fs2 sample_fs33 (sample_msg []) = Inr None"
proof -
  have p: "parse_elements sample_fs2 sample_fs33 [text_rec (bytes_lit ''hi'')] =
           Inr [TextElement (str_lit ''hi'')]"
    by (simp add: run_defs)
  show ?thesis
    using
      decode_normal_buddy_event[of sample_fs2 sample_fs33
        "sample_msg [text_rec (bytes_lit ''hi'')]"
        "\<lparr>rich_text = Some \<lparr>elems = [text_rec (bytes_lit ''hi'')]\<rparr>\<rparr>"
        "\<lparr>elems = [text_rec (bytes_lit ''hi'')]\<rparr>" "\<lparr>auto_reply = 1\<rparr>"]
      decode_normal_buddy_event[of sample_fs2 sample_fs33 "sample_msg []"]
    by (simp add: sample_msg_def sample_head_def p)
qed

text \<open>
  The claim as stated fails: with the content head and a non-empty sequence present,
  a sequence that ends in a \<^verbatim>\<open>small_emoji\<close> record makes the decoder raise, not return an
  event.
\<close>

theorem decode_normal_buddy_raises:
  "decode_normal_buddy sample_fs2 sample_fs33 (sample_msg [small_emoji_rec 1]) = Inl IndexError"
  by (simp add: decode_normal_buddy_def sample_msg_def run_defs)

section \<open>The \<^verbatim>\<open>small_emoji\<close> branch\<close>

text \<open>
  Claim C4, as amended. When the cursor is at position \<open>i\<close>, the record there carries
  \<^verbatim>\<open>small_emoji\<close> (and none of \<^verbatim>\<open>text\<close>, \<^verbatim>\<open>face\<close>, \<^verbatim>\<open>common_elem\<close>) and the record at \<open>i + 1\<close>
  carries a \<^verbatim>\<open>text\<close> payload that decodes, the parser appends exactly one
  \<open>SmallEmojiElement\<close>, made of the pack identifier of the record at \<open>i\<close> and the decoded
  text of the record at \<open>i + 1\<close>, and goes on at position \<open>i + 2\<close>: the record at \<open>i + 1\<close>
  gets no iteration of its own and so no \<open>TextElement\<close>. In particular
  \<^verbatim>\<open>[small_emoji(pack_id=42), text("caption")]\<close> yields \<^verbatim>\<open>[SmallEmojiElement(42, "caption")]\<close>.
\<close>

theorem small_emoji_consumes_caption:
  assumes "i + 1 < length xs"
    and "small_emoji (xs ! i) = Some se"
    and "text (xs ! i) = None" and "face (xs ! i) = None" and "common_elem (xs ! i) = None"
    and "text (xs ! (i + 1)) = Some t" and "utf8_decode (str t) = Inr s"
  shows "parse_loop fs2 fs33 xs i res =
           parse_loop fs2 fs33 xs (i + 2) (res @ [SmallEmojiElement (pack_id_sum se) s]) \<and>
         parse_elements fs2 fs33 [small_emoji_rec 42, text_rec (bytes_lit ''caption'')] =
           Inr [SmallEmojiElement 42 (str_lit ''caption'')]"
proof (rule conjI)
  have "i < length xs" using assms(1) by simp
  then show "parse_loop fs2 fs33 xs i res =
           parse_loop fs2 fs33 xs (i + 2) (res @ [SmallEmojiElement (pack_id_sum se) s])"
    using assms by (subst parse_loop.simps) (simp add: branch_defs)
  show "parse_elements fs2 fs33 [small_emoji_rec 42, text_rec (bytes_lit ''caption'')] =
           Inr [SmallEmojiElement 42 (str_lit ''caption'')]"
    by (simp add: run_defs)
qed

theorem small_emoji_consumes_caption_witness:
  "text ([small_emoji_rec 42, text_rec (bytes_lit ''caption'')] ! (0 + 1)) =
     Some \<lparr>str = bytes_lit ''caption''\<rparr> \<and>
   parse_loop sample_fs2 sample_fs33
     [small_emoji_rec 42, text_rec (bytes_lit ''caption'')] 0 [] =
   parse_loop sample_fs2 sample_fs33
     [small_emoji_rec 42, text_rec (bytes_lit ''caption'')] (0 + 2)
     ([] @ [SmallEmojiElement 42 (str_lit ''caption'')])"
proof -
  let ?xs = "[small_emoji_rec 42, text_rec (bytes_lit ''caption'')]"
  have h1: "0 + 1 < length ?xs"
    by simp
  have h2: "small_emoji (?xs ! 0) = Some \<lparr>pack_id_sum = 42, image_type = 0\<rparr>"
    by (simp add: sample_defs)
  have h3: "text (?xs ! 0) = None" and h4: "face (?xs ! 0) = None"
    and h5: "common_elem (?xs ! 0) = None"
    by (simp_all add: sample_defs)
  have h6: "text (?xs ! (0 + 1)) = Some \<lparr>str = bytes_lit ''caption''\<rparr>"
    by (simp add: sample_defs)
  have h7: "utf8_decode (str \<lparr>str = bytes_lit ''caption''\<rparr>) = Inr (str_lit ''caption'')"
    by (simp add: utf8_decode_caption)
  show ?thesis
    using h6
      small_emoji_consumes_caption[OF h1 h2 h3 h4 h5 h6 h7, of sample_fs2 sample_fs33 "[]",
        THEN conjunct1]
    by simp
qed

text \<open>
  The claim as stated fails: in the sequence below the \<^verbatim>\<open>small_emoji\<close> record at position 1
  is followed by a \<^verbatim>\<open>text\<close> record at position 2, but position 1 is read as the caption
  slot of position 0; no element combines pack 2 with the text, and the text record
  yields a \<open>TextElement\<close> of its own.
\<close>

theorem small_emoji_pair_not_reached:
  "parse_elements sample_fs2 sample_fs33
     [small_emoji_rec 1, small_emoji_rec 2, text_rec (bytes_lit ''x'')] =
     Inr [SmallEmojiElement 1 [], TextElement (str_lit ''x'')]"
  by (simp add: run_defs)

text \<open>
  Claim C5, as amended. Let the final record \<open>e\<close> of a sequence \<open>pre @ [e]\<close> carry
  \<^verbatim>\<open>small_emoji\<close> (and a \<^verbatim>\<open>text\<close> payload, if any, that decodes), let no record of \<open>pre\<close> be a
  poke and let the scan of \<open>pre\<close> alone return a list, so that the cursor arrives at \<open>e\<close>. Then the parser returns
  no list: it raises \<^verbatim>\<open>IndexError\<close>.
\<close>

theorem trailing_small_emoji_aborts:
  assumes "parse_elements fs2 fs33 pre = Inr r"
    and "\<forall>e\<in>set pre. \<not> is_poke e"
    and "small_emoji e = Some se"
    and "case text e of None \<Rightarrow> True | Some t \<Rightarrow> utf8_decode (str t) = Inr s"
  shows "parse_elements fs2 fs33 (pre @ [e]) = Inl IndexError"
proof -
  have "parse_elements fs2 fs33 (pre @ [e]) = parse_loop fs2 fs33 (pre @ [e]) (length pre) r"
    using assms(1,2) by (rule parse_elements_prefix)
  also have "\<dots> = Inl IndexError"
    using assms(3,4)
    by (subst parse_loop.simps) (simp add: on_text_def on_small_emoji_def split: option.splits)
  finally show ?thesis .
qed

theorem trailing_small_emoji_aborts_witness:
  "parse_elements sample_fs2 sample_fs33 [text_rec (bytes_lit ''a'')] =
     Inr [TextElement (str_lit ''a'')] \<and>
   small_emoji (small_emoji_rec 1) = Some \<lparr>pack_id_sum = 1, image_type = 0\<rparr> \<and>
   parse_elements sample_fs2 sample_fs33 ([text_rec (bytes_lit ''a'')] @ [small_emoji_rec 1]) =
     Inl IndexError"
proof -
  have h1: "parse_elements sample_fs2 sample_fs33 [text_rec (bytes_lit ''a'')] =
            Inr [TextElement (str_lit ''a'')]"
    by (simp add: run_defs)
  have h2: "\<forall>e\<in>set [text_rec (bytes_lit ''a'')]. \<not> is_poke e"
    by (simp add: is_poke_def sample_defs)
  have h3: "small_emoji (small_emoji_rec 1) = Some \<lparr>pack_id_sum = 1, image_type = 0\<rparr>"
    by (simp add: sample_defs)
  have h4: "case text (small_emoji_rec 1) of
              None \<Rightarrow> True
            | Some t \<Rightarrow> utf8_decode (str t) = Inr []"
    by (simp add: sample_defs)
  show ?thesis
    using h1 h3 trailing_small_emoji_aborts[OF h1 h2 h3 h4]
    by simp
qed

text \<open>
  The claim as stated fails: the final record below carries \<^verbatim>\<open>small_emoji\<close>, yet it is
  read as the caption slot of the record before it and the parser returns a list.
\<close>

theorem trailing_small_emoji_consumed:
  "parse_elements sample_fs2 sample_fs33 [small_emoji_rec 1, small_emoji_rec 2] =
     Inr [SmallEmojiElement 1 []]"
  by (simp add: run_defs)

text \<open>
  Claim C6, as amended. Let a sequence be \<open>pre @ e # n # post\<close>, where \<open>e\<close> carries
  \<^verbatim>\<open>small_emoji\<close> (and none of \<^verbatim>\<open>text\<close>, \<^verbatim>\<open>face\<close>, \<^verbatim>\<open>common_elem\<close>), the next record \<open>n\<close> has no
  \<^verbatim>\<open>text\<close> set, neither \<open>pre\<close> nor \<open>post\<close> holds a poke, and the scans of \<open>pre\<close> alone and of
  \<open>post\<close> alone return the lists \<open>r\<close> and \<open>rpost\<close>. Then the parser does not abort: it
  returns \<open>r\<close>, then one \<open>SmallEmojiElement\<close> with the pack identifier of \<open>e\<close> and the empty
  caption (the unset field reads as the empty payload), then \<open>rpost\<close>; the record \<open>n\<close>
  contributes nothing else, whatever other tags it carries.
\<close>

theorem small_emoji_untexted_caption:
  assumes "parse_elements fs2 fs33 pre = Inr r" and "\<forall>x\<in>set pre. \<not> is_poke x"
    and "parse_elements fs2 fs33 post = Inr rpost" and "\<forall>x\<in>set post. \<not> is_poke x"
    and "small_emoji e = Some se"
    and "text e = None" and "face e = None" and "common_elem e = None"
    and "text n = None"
  shows "parse_elements fs2 fs33 (pre @ e # n # post) =
         Inr (r @ [SmallEmojiElement (pack_id_sum se) []] @ rpost)"
proof -
  let ?xs = "pre @ e # n # post"
  have l: "length pre < length ?xs"
    by simp
  have "parse_elements fs2 fs33 ?xs = parse_loop fs2 fs33 ?xs (length pre) r"
    using assms(1,2) by (rule parse_elements_prefix)
  also have "\<dots> =
      parse_loop fs2 fs33 ?xs (length pre + 2) (r @ [SmallEmojiElement (pack_id_sum se) []])"
    using assms(5-9)
    by (simp add: parse_loop_unfold[OF l] branch_defs utf8_decode_Nil nth_append)
  also have "\<dots> =
      parse_loop fs2 fs33 post 0 ((r @ [SmallEmojiElement (pack_id_sum se) []]) @ [])"
    using parse_loop_shift[of fs2 fs33 "pre @ [e, n]" post 0
        "r @ [SmallEmojiElement (pack_id_sum se) []]"]
    by simp
  also have "\<dots> = Inr ((r @ [SmallEmojiElement (pack_id_sum se) []]) @ rpost)"
    using assms(3,4) by (subst parse_loop_acc) (auto simp: parse_elements_def)
  finally show ?thesis by simp
qed

theorem small_emoji_untexted_caption_witness:
  "parse_elements sample_fs2 sample_fs33 [text_rec (bytes_lit ''a'')] =
     Inr [TextElement (str_lit ''a'')] \<and>
   parse_elements sample_fs2 sample_fs33 [text_rec (bytes_lit ''hi'')] =
     Inr [TextElement (str_lit ''hi'')] \<and>
   text (face_rec 7) = None \<and>
   parse_elements sample_fs2 sample_fs33
     ([text_rec (bytes_lit ''a'')] @ small_emoji_rec 42 # face_rec 7 #
      [text_rec (bytes_lit ''hi'')]) =
     Inr ([TextElement (str_lit ''a'')] @ [SmallEmojiElement 42 []] @
          [TextElement (str_lit ''hi'')])"
proof -
  have h1: "parse_elements sample_fs2 sample_fs33 [text_rec (bytes_lit ''a'')] =
            Inr [TextElement (str_lit ''a'')]"
    by (simp add: run_defs)
  have h2: "\<forall>x\<in>set [text_rec (bytes_lit ''a'')]. \<not> is_poke x"
    by (simp add: is_poke_def sample_defs)
  have h3: "parse_elements sample_fs2 sample_fs33 [text_rec (bytes_lit ''hi'')] =
            Inr [TextElement (str_lit ''hi'')]"
    by (simp add: run_defs)
  have h4: "\<forall>x\<in>set [text_rec (bytes_lit ''hi'')]. \<not> is_poke x"
    by (simp add: is_poke_def sample_defs)
  have h5: "small_emoji (small_emoji_rec 42) = Some \<lparr>pack_id_sum = 42, image_type = 0\<rparr>"
    by (simp add: sample_defs)
  have h6: "text (small_emoji_rec 42) = None" and h7: "face (small_emoji_rec 42) = None"
    and h8: "common_elem (small_emoji_rec 42) = None"
    by (simp_all add: sample_defs)
  have h9: "text (face_rec 7) = None"
    by (simp add: sample_defs)
  show ?thesis
    using h1 h3 h9 small_emoji_untexted_caption[OF h1 h2 h3 h4 h5 h6 h7 h8 h9]
    by simp
qed

text \<open>
  The claim as stated fails: a \<^verbatim>\<open>small_emoji\<close> record followed by a \<^verbatim>\<open>face\<close> record, which
  has no \<^verbatim>\<open>text\<close> set, is parsed to a list, and the face is lost.
\<close>

theorem small_emoji_then_face_returns:
  "parse_elements sample_fs2 sample_fs33 [small_emoji_rec 42, face_rec 7] =
     Inr [SmallEmojiElement 42 []]"
  by (simp add: run_defs)

section \<open>The \<^verbatim>\<open>common_elem\<close> branch for the other service types\<close>

text \<open>
  Claim C7, as amended. When the cursor is at a record whose only set tag is
  \<^verbatim>\<open>common_elem\<close>: if its \<^verbatim>\<open>service_type\<close> is 33 and the payload decodes, the parser
  appends one \<open>FaceElement\<close> carrying the index of the payload and goes on with the next
  record; if its \<^verbatim>\<open>service_type\<close> is neither 2 nor 33, the parser appends nothing and goes
  on with the next record.
\<close>

theorem common_elem_other_service_types:
  assumes "i < length xs"
    and "text (xs ! i) = None" and "face (xs ! i) = None" and "small_emoji (xs ! i) = None"
    and "common_elem (xs ! i) = Some ce"
  shows "(service_type ce = 33 \<and> fs33 (pb_elem ce) = Inr info \<longrightarrow>
            parse_loop fs2 fs33 xs i res =
            parse_loop fs2 fs33 xs (i + 1) (res @ [FaceElement (info_index info)])) \<and>
         (service_type ce \<noteq> 2 \<and> service_type ce \<noteq> 33 \<longrightarrow>
            parse_loop fs2 fs33 xs i res = parse_loop fs2 fs33 xs (i + 1) res)"
  using assms
  by (subst parse_loop.simps, subst (2) parse_loop.simps) (simp add: branch_defs)

theorem common_elem_other_service_types_witness:
  "parse_loop sample_fs2 sample_fs33 [common_elem_rec 33 [], common_elem_rec 7 []] 0 [] =
   parse_loop sample_fs2 sample_fs33 [common_elem_rec 33 [], common_elem_rec 7 []] (0 + 1)
     ([] @ [FaceElement 9]) \<and>
   parse_loop sample_fs2 sample_fs33 [common_elem_rec 33 [], common_elem_rec 7 []] 1
     [FaceElement 9] =
   parse_loop sample_fs2 sample_fs33 [common_elem_rec 33 [], common_elem_rec 7 []] (1 + 1)
     [FaceElement 9]"
proof -
  let ?xs = "[common_elem_rec 33 [], common_elem_rec 7 []]"
  have a1: "0 < length ?xs" and b1: "1 < length ?xs"
    by simp_all
  have a2: "text (?xs ! 0) = None" and a3: "face (?xs ! 0) = None"
    and a4: "small_emoji (?xs ! 0) = None"
    and a5: "common_elem (?xs ! 0) = Some \<lparr>service_type = 33, pb_elem = []\<rparr>"
    by (simp_all add: sample_defs)
  have b2: "text (?xs ! 1) = None" and b3: "face (?xs ! 1) = None"
    and b4: "small_emoji (?xs ! 1) = None"
    and b5: "common_elem (?xs ! 1) = Some \<lparr>service_type = 7, pb_elem = []\<rparr>"
    by (simp_all add: sample_defs)
  have a6: "service_type \<lparr>service_type = 33, pb_elem = []\<rparr> = 33 \<and>
            sample_fs33 (pb_elem \<lparr>service_type = 33, pb_elem = []\<rparr>) = Inr \<lparr>info_index = 9\<rparr>"
    by (simp add: sample_fs33_def reads_as_def)
  have b6: "service_type \<lparr>service_type = 7, pb_elem = []\<rparr> \<noteq> 2 \<and>
            service_type \<lparr>service_type = 7, pb_elem = []\<rparr> \<noteq> 33"
    by simp
  show ?thesis
    using
      common_elem_other_service_types[OF a1 a2 a3 a4 a5,
        of sample_fs33 "\<lparr>info_index = 9\<rparr>" sample_fs2 "[]", THEN conjunct1, THEN mp, OF a6]
      common_elem_other_service_types[OF b1 b2 b3 b4 b5,
        of sample_fs33 "\<lparr>info_index = 9\<rparr>" sample_fs2 "[FaceElement 9]",
        THEN conjunct2, THEN mp, OF b6]
    by simp
qed

text \<open>
  The claim as stated fails: a \<^verbatim>\<open>common_elem\<close> record with \<^verbatim>\<open>service_type == 33\<close> right
  after a \<^verbatim>\<open>small_emoji\<close> record is read as that record's caption slot and skipped; its
  payload is never decoded and it yields no \<open>FaceElement\<close>.
\<close>

theorem servtype33_after_small_emoji_skipped:
  "parse_elements sample_fs2 sample_fs33 [small_emoji_rec 1, common_elem_rec 33 []] =
     Inr [SmallEmojiElement 1 []]"
  by (simp add: run_defs)

section \<open>Dispatch on the sub-command\<close>

lemma MESSAGE_DECODERS_decode:
  "MESSAGE_DECODERS fs2 fs33 k = Some d \<Longrightarrow> d = decode fs2 fs33"
  by (auto simp: MESSAGE_DECODERS_def split: if_splits)

text \<open>
  Claim C8. Let the top-level command \<open>k\<close> of a message have an entry \<open>d\<close> in
  \<^verbatim>\<open>MESSAGE_DECODERS\<close> (each entry is the buddy-message decoder). If the \<^verbatim>\<open>c2c_cmd\<close> of the
  message has no entry in the sub-decoder mapping, \<open>d\<close> logs exactly one debug record,
  returns no event and does not raise. The sub-commands with an entry are exactly 11
  and 175, and both are routed to the normal-buddy decoder: for them \<open>d\<close> logs nothing
  and returns what the normal-buddy decoder returns on the message.
\<close>

theorem unmapped_c2c_cmd_logged:
  assumes "MESSAGE_DECODERS fs2 fs33 k = Some d"
  shows "(sub_decoders fs2 fs33 (c2c_cmd (head m)) = None \<longrightarrow>
            d m =
              ([Debug (''MessageSvc.PbGetMsg: BuddyMessageDecoder cannot ''
                       @ ''decode message with c2c_cmd '' @ str_int (c2c_cmd (head m)))],
               Inr None)) \<and>
         (c2c_cmd (head m) = 11 \<or> c2c_cmd (head m) = 175 \<longrightarrow>
            d m = ([], decode_normal_buddy fs2 fs33 m)) \<and>
         (sub_decoders fs2 fs33 (c2c_cmd (head m)) = None) =
           (c2c_cmd (head m) \<noteq> 11 \<and> c2c_cmd (head m) \<noteq> 175) \<and>
         dom (sub_decoders fs2 fs33) = {11, 175} \<and>
         sub_decoders fs2 fs33 11 = Some (decode_normal_buddy fs2 fs33) \<and>
         sub_decoders fs2 fs33 175 = Some (decode_normal_buddy fs2 fs33)"
proof -
  have d: "d = decode fs2 fs33"
    using assms by (rule MESSAGE_DECODERS_decode)
  have miss: "sub_decoders fs2 fs33 (c2c_cmd (head m)) = None \<longrightarrow>
      d m =
        ([Debug (''MessageSvc.PbGetMsg: BuddyMessageDecoder cannot ''
                 @ ''decode message with c2c_cmd '' @ str_int (c2c_cmd (head m)))],
         Inr None)"
    by (simp add: d decode_def)
  have hit: "c2c_cmd (head m) = 11 \<or> c2c_cmd (head m) = 175 \<longrightarrow>
      d m = ([], decode_normal_buddy fs2 fs33 m)"
    by (auto simp: d decode_def sub_decoders_def)
  have none: "(sub_decoders fs2 fs33 (c2c_cmd (head m)) = None) =
      (c2c_cmd (head m) \<noteq> 11 \<and> c2c_cmd (head m) \<noteq> 175)"
    by (simp add: sub_decoders_def)
  have keys: "dom (sub_decoders fs2 fs33) = {11, 175}"
    by (auto simp: sub_decoders_def split: if_splits)
  have e11: "sub_decoders fs2 fs33 11 = Some (decode_normal_buddy fs2 fs33)"
    and e175: "sub_decoders fs2 fs33 175 = Some (decode_normal_buddy fs2 fs33)"
    by (simp_all add: sub_decoders_def)
  from miss hit none keys e11 e175 show ?thesis
    by (intro conjI)
qed

theorem unmapped_c2c_cmd_logged_witness:
  "MESSAGE_DECODERS sample_fs2 sample_fs33 166 = Some (decode sample_fs2 sample_fs33) \<and>
   sub_decoders sample_fs2 sample_fs33
     (c2c_cmd (head ((sample_msg [])\<lparr>head := sample_head\<lparr>c2c_cmd := 129\<rparr>\<rparr>))) = None \<and>
   decode sample_fs2 sample_fs33 ((sample_msg [])\<lparr>head := sample_head\<lparr>c2c_cmd := 129\<rparr>\<rparr>) =
     ([Debug ''MessageSvc.PbGetMsg: BuddyMessageDecoder cannot decode message with c2c_cmd 129''],
      Inr None) \<and>
   decode sample_fs2 sample_fs33 (sample_msg [text_rec (bytes_lit ''hi'')]) =
     ([], Inr (Some (PrivateMessage 7 1600000000 True 10001 (str_lit ''nick'') 10002
                       [TextElement (str_lit ''hi'')])))"
proof -
  let ?m = "(sample_msg [])\<lparr>head := sample_head\<lparr>c2c_cmd := 129\<rparr>\<rparr>"
  let ?m11 = "sample_msg [text_rec (bytes_lit ''hi'')]"
  have h1: "MESSAGE_DECODERS sample_fs2 sample_fs33 166 = Some (decode sample_fs2 sample_fs33)"
    by (simp add: MESSAGE_DECODERS_def)
  have h2: "sub_decoders sample_fs2 sample_fs33 (c2c_cmd (head ?m)) = None"
    by (simp add: sub_decoders_def sample_msg_def sample_head_def)
  have h3: "c2c_cmd (head ?m11) = 11 \<or> c2c_cmd (head ?m11) = 175"
    by (simp add: sample_msg_def sample_head_def)
  have s: "str_int 129 = ''129''"
    by (simp add: str_int_def digits.simps)
  have p: "decode_normal_buddy sample_fs2 sample_fs33 ?m11 =
           Inr (Some (PrivateMessage 7 1600000000 True 10001 (str_lit ''nick'') 10002
                        [TextElement (str_lit ''hi'')]))"
    by (simp add: decode_normal_buddy_def sample_msg_def sample_head_def run_defs)
  show ?thesis
    using h1 h2
      unmapped_c2c_cmd_logged[OF h1, of ?m, THEN conjunct1, THEN mp, OF h2]
      unmapped_c2c_cmd_logged[OF h1, of ?m11, THEN conjunct2, THEN conjunct1, THEN mp, OF h3]
    by (simp add: sample_msg_def sample_head_def s p[unfolded sample_msg_def sample_head_def])
qed

section \<open>The order of the result\<close>

lemma traced_Nil: "traced fs2 fs33 xs i []"
  by (simp add: traced_def)

lemma traced_mono: "traced fs2 fs33 xs i res \<Longrightarrow> i \<le> i' \<Longrightarrow> traced fs2 fs33 xs i' res"
  unfolding traced_def by (meson order_trans)

lemma traced_append:
  assumes "traced fs2 fs33 xs i res" and "\<forall>y\<in>set ys. source_of fs2 fs33 xs i y"
  shows "traced fs2 fs33 xs i (res @ ys)"
proof -
  from assms(1) obtain js where
    js: "list_all2 (source_of fs2 fs33 xs) js res" "sorted js" "\<forall>j\<in>set js. j \<le> i"
    unfolding traced_def by blast
  have "list_all2 (source_of fs2 fs33 xs) (replicate (length ys) i) ys"
    using assms(2) by (simp add: list_all2_conv_all_nth)
  with js(1) have "list_all2 (source_of fs2 fs33 xs) (js @ replicate (length ys) i) (res @ ys)"
    by (rule list_all2_appendI)
  moreover have "sorted (js @ replicate (length ys) i)"
    using js(2,3) by (auto simp: sorted_append)
  moreover have "\<forall>j\<in>set (js @ replicate (length ys) i). j \<le> i"
    using js(3) by auto
  ultimately show ?thesis unfolding traced_def by blast
qed

text \<open>What each branch appends has the current record as its source.\<close>

lemma on_text_source:
  assumes "on_text (xs ! i) res = Inr res1" and "i < length xs"
  shows "\<exists>ys. res1 = res @ ys \<and> (\<forall>y\<in>set ys. source_of fs2 fs33 xs i y)"
  using assms by (auto simp: on_text_def source_of_def split: option.splits sum.splits)

lemma on_face_source:
  assumes "i < length xs"
  shows "\<exists>ys. on_face (xs ! i) res = res @ ys \<and> (\<forall>y\<in>set ys. source_of fs2 fs33 xs i y)"
  using assms by (auto simp: on_face_def source_of_def split: option.splits)

lemma on_small_emoji_source:
  assumes "on_small_emoji xs (xs ! i) i res = Inr (i', res2)" and "i < length xs"
  shows "\<exists>ys. res2 = res @ ys \<and> (\<forall>y\<in>set ys. source_of fs2 fs33 xs i y)"
  using assms
  by (auto simp: on_small_emoji_def source_of_def split: option.splits sum.splits if_splits)

lemma on_common_elem_source:
  assumes "on_common_elem fs2 fs33 (xs ! i) res = Inr (Continue res3)" and "i < length xs"
  shows "\<exists>ys. res3 = res @ ys \<and> (\<forall>y\<in>set ys. source_of fs2 fs33 xs i y)"
  using assms
  by (auto simp: on_common_elem_def source_of_def split: option.splits sum.splits if_splits)

lemma on_common_elem_break_source:
  assumes "on_common_elem fs2 fs33 (xs ! i) res = Inr (Break res3)" and "i < length xs"
  shows "\<exists>y. res3 = [y] \<and> source_of fs2 fs33 xs i y"
  using assms
  by (auto simp: on_common_elem_def source_of_def split: option.splits sum.splits if_splits)

lemma parse_loop_traced:
  assumes "parse_loop fs2 fs33 xs i res = Inr r" and "traced fs2 fs33 xs i res"
  shows "\<exists>js. list_all2 (source_of fs2 fs33 xs) js r \<and> sorted js"
  using assms
proof (induction fs2 fs33 xs i res rule: parse_loop.induct)
  case (1 fs2 fs33 xs i res)
  show ?case
  proof (cases "i < length xs")
    case False
    with "1.prems" show ?thesis by (auto simp: parse_loop_end traced_def)
  next
    case True
    let ?e = "xs ! i"
    from "1.prems"(1) True obtain res1 i' res2 fl where
      t: "on_text ?e res = Inr res1" and
      s: "on_small_emoji xs ?e i (on_face ?e res1) = Inr (i', res2)" and
      c: "on_common_elem fs2 fs33 ?e res2 = Inr fl"
      by (rule parse_loop_InrE)
    have tr1: "traced fs2 fs33 xs i res1"
      using on_text_source[OF t True, of fs2 fs33] traced_append[OF "1.prems"(2)] by blast
    have tr1': "traced fs2 fs33 xs i (on_face ?e res1)"
      using on_face_source[OF True, of res1 fs2 fs33] traced_append[OF tr1] by metis
    have tr2: "traced fs2 fs33 xs i res2"
      using on_small_emoji_source[OF s True, of fs2 fs33] traced_append[OF tr1'] by blast
    show ?thesis
    proof (cases fl)
      case (Break res3)
      with True t s c have "parse_loop fs2 fs33 xs i res = Inr res3"
        by (simp add: parse_loop_break)
      with "1.prems"(1) have "r = res3" by simp
      moreover from on_common_elem_break_source[OF c[unfolded Break] True]
      obtain y where "res3 = [y]" "source_of fs2 fs33 xs i y" by blast
      ultimately have "list_all2 (source_of fs2 fs33 xs) [i] r \<and> sorted [i]" by simp
      then show ?thesis by blast
    next
      case (Continue res3)
      with True t s c have "parse_loop fs2 fs33 xs i res = parse_loop fs2 fs33 xs (i' + 1) res3"
        by (simp add: parse_loop_step)
      with "1.prems"(1) have rest: "parse_loop fs2 fs33 xs (i' + 1) res3 = Inr r" by simp
      have "traced fs2 fs33 xs i res3"
        using on_common_elem_source[OF c[unfolded Continue] True] traced_append[OF tr2] by blast
      moreover have "i \<le> i' + 1" using on_small_emoji_index[OF s] by simp
      ultimately have "traced fs2 fs33 xs (i' + 1) res3" by (rule traced_mono)
      with "1.IH"[OF True t s refl c[unfolded Continue] refl rest] show ?thesis .
    qed
  qed
qed

text \<open>
  Claim C9. For every sequence with no \<^verbatim>\<open>common_elem\<close> record of \<^verbatim>\<open>service_type == 2\<close>, the
  elements the parser returns are in the order of their source records: the positions
  \<open>js\<close> of the source records, one for each returned element and in the same order, are
  ascending; and whenever the sequence is split in two parts that the parser accepts one
  by one, the result is what the first part yields followed by what the second part
  yields. In particular \<^verbatim>\<open>[text("hi"), face(7)]\<close> yields
  \<^verbatim>\<open>[TextElement("hi"), FaceElement(7)]\<close>.
\<close>

theorem element_order_preserved:
  assumes "\<forall>e\<in>set xs. \<not> is_poke e"
    and "parse_elements fs2 fs33 xs = Inr r"
  shows "(\<exists>js. list_all2 (source_of fs2 fs33 xs) js r \<and> sorted js) \<and>
         (\<forall>ys zs ry rz.
            xs = ys @ zs \<and> parse_elements fs2 fs33 ys = Inr ry \<and>
            parse_elements fs2 fs33 zs = Inr rz \<longrightarrow> r = ry @ rz) \<and>
         parse_elements fs2 fs33 [text_rec (bytes_lit ''hi''), face_rec 7] =
           Inr [TextElement (str_lit ''hi''), FaceElement 7]"
proof (intro conjI allI impI)
  show "\<exists>js. list_all2 (source_of fs2 fs33 xs) js r \<and> sorted js"
    using assms(2) parse_loop_traced[of fs2 fs33 xs 0 "[]" r]
    by (simp add: parse_elements_def traced_Nil)
  show "r = ry @ rz"
    if "xs = ys @ zs \<and> parse_elements fs2 fs33 ys = Inr ry \<and>
        parse_elements fs2 fs33 zs = Inr rz" for ys zs ry rz
  proof -
    from that assms(1) have "parse_elements fs2 fs33 xs = Inr (ry @ rz)"
      by (simp add: parse_elements_append)
    with assms(2) show ?thesis by simp
  qed
  show "parse_elements fs2 fs33 [text_rec (bytes_lit ''hi''), face_rec 7] =
           Inr [TextElement (str_lit ''hi''), FaceElement 7]"
    by (simp add: run_defs)
qed

theorem element_order_preserved_witness:
  "parse_elements sample_fs2 sample_fs33
     ([text_rec (bytes_lit ''hi'')] @
      [small_emoji_rec 42, text_rec (bytes_lit ''caption''), face_rec 7]) =
     Inr [TextElement (str_lit ''hi''), SmallEmojiElement 42 (str_lit ''caption''),
          FaceElement 7] \<and>
   (\<exists>js. list_all2
           (source_of sample_fs2 sample_fs33
              ([text_rec (bytes_lit ''hi'')] @
               [small_emoji_rec 42, text_rec (bytes_lit ''caption''), face_rec 7]))
           js
           [TextElement (str_lit ''hi''), SmallEmojiElement 42 (str_lit ''caption''),
            FaceElement 7] \<and>
         sorted js) \<and>
   [TextElement (str_lit ''hi''), SmallEmojiElement 42 (str_lit ''caption''), FaceElement 7] =
   [TextElement (str_lit ''hi'')] @
   [SmallEmojiElement 42 (str_lit ''caption''), FaceElement 7]"
proof -
  let ?ys = "[text_rec (bytes_lit ''hi'')]"
  let ?zs = "[small_emoji_rec 42, text_rec (bytes_lit ''caption''), face_rec 7]"
  let ?r = "[TextElement (str_lit ''hi''), SmallEmojiElement 42 (str_lit ''caption''),
             FaceElement 7]"
  have h1: "\<forall>e\<in>set (?ys @ ?zs). \<not> is_poke e"
    by (simp add: is_poke_def sample_defs)
  have h2: "parse_elements sample_fs2 sample_fs33 (?ys @ ?zs) = Inr ?r"
    by (simp add: run_defs)
  have h3: "?ys @ ?zs = ?ys @ ?zs \<and>
            parse_elements sample_fs2 sample_fs33 ?ys = Inr [TextElement (str_lit ''hi'')] \<and>
            parse_elements sample_fs2 sample_fs33 ?zs =
              Inr [SmallEmojiElement 42 (str_lit ''caption''), FaceElement 7]"
    by (simp add: run_defs)
  note inst = element_order_preserved[OF h1 h2]
  show ?thesis
    using h2 inst[THEN conjunct1] inst[THEN conjunct2, THEN conjunct1, rule_format, OF h3]
    by (intro conjI)
qed

section \<open>Records with several tags\<close>

text \<open>
  Claim C10, as amended. The tags are not exclusive. Let the cursor be at a record such
  that: its \<^verbatim>\<open>text\<close> payload, if set, decodes; if \<^verbatim>\<open>small_emoji\<close> is set on it, the next
  record exists and the \<^verbatim>\<open>text\<close> payload of that record (empty when not set) decodes; and
  its \<^verbatim>\<open>common_elem\<close>, if set, has a \<^verbatim>\<open>service_type\<close> other than 2 and, when the type is 33,
  a payload that decodes. Then the parser appends, in this fixed order, a \<open>TextElement\<close>
  if \<^verbatim>\<open>text\<close> is set, a \<open>FaceElement\<close> if \<^verbatim>\<open>face\<close> is set, a \<open>SmallEmojiElement\<close> if
  \<^verbatim>\<open>small_emoji\<close> is set and a \<open>FaceElement\<close> if \<^verbatim>\<open>common_elem\<close> is set with
  \<^verbatim>\<open>service_type == 33\<close>; a \<^verbatim>\<open>common_elem\<close> of any other service type adds nothing. It then
  goes on two positions further if \<^verbatim>\<open>small_emoji\<close> is set and one otherwise. If moreover
  the records before the cursor hold no poke and their scan alone returns \<open>res\<close>, and the
  records from the position where the scan goes on hold no poke and their scan alone
  returns \<open>rest\<close>, then the whole parse returns \<open>res\<close>, then these elements in this order,
  then \<open>rest\<close>. In particular the sequence of one record with \<^verbatim>\<open>text("hi")\<close> and \<^verbatim>\<open>face(7)\<close>
  both set yields \<^verbatim>\<open>[TextElement("hi"), FaceElement(7)]\<close>.
\<close>

theorem tags_not_exclusive:
  assumes "i < length xs"
    and "case text (xs ! i) of
           None \<Rightarrow> ts = []
         | Some t \<Rightarrow> utf8_decode (str t) = Inr s \<and> ts = [TextElement s]"
    and "fa = (case face (xs ! i) of None \<Rightarrow> [] | Some f \<Rightarrow> [FaceElement (index f)])"
    and "case small_emoji (xs ! i) of
           None \<Rightarrow> sm = [] \<and> k = 1
         | Some se \<Rightarrow>
             i + 1 < length xs \<and> utf8_decode (str (get_text (xs ! (i + 1)))) = Inr c \<and>
             sm = [SmallEmojiElement (pack_id_sum se) c] \<and> k = 2"
    and "case common_elem (xs ! i) of
           None \<Rightarrow> cm = []
         | Some ce \<Rightarrow>
             service_type ce \<noteq> 2 \<and>
             (if service_type ce = 33
              then fs33 (pb_elem ce) = Inr info \<and> cm = [FaceElement (info_index info)]
              else cm = [])"
  shows "parse_loop fs2 fs33 xs i res =
           parse_loop fs2 fs33 xs (i + k) (res @ ts @ fa @ sm @ cm) \<and>
         (parse_elements fs2 fs33 (take i xs) = Inr res \<and>
          (\<forall>x\<in>set (take i xs). \<not> is_poke x) \<and>
          parse_elements fs2 fs33 (drop (i + k) xs) = Inr rest \<and>
          (\<forall>x\<in>set (drop (i + k) xs). \<not> is_poke x) \<longrightarrow>
          parse_elements fs2 fs33 xs = Inr (res @ ts @ fa @ sm @ cm @ rest)) \<and>
         parse_elements fs2 fs33 [(text_rec (bytes_lit ''hi''))\<lparr>face := Some \<lparr>index = 7\<rparr>\<rparr>] =
           Inr [TextElement (str_lit ''hi''), FaceElement 7]"
proof (intro conjI impI)
  have t: "on_text (xs ! i) res = Inr (res @ ts)"
    using assms(2) by (simp add: on_text_def split: option.splits)
  have f: "on_face (xs ! i) (res @ ts) = res @ ts @ fa"
    using assms(3) by (simp add: on_face_def split: option.splits)
  have s: "on_small_emoji xs (xs ! i) i (res @ ts @ fa) = Inr (i + k - 1, res @ ts @ fa @ sm)"
    using assms(4) by (simp add: on_small_emoji_def split: option.splits)
  have c: "on_common_elem fs2 fs33 (xs ! i) (res @ ts @ fa @ sm) =
           Inr (Continue (res @ ts @ fa @ sm @ cm))"
    using assms(5) by (auto simp: on_common_elem_def split: option.splits if_splits)
  have k: "i + k - 1 + 1 = i + k"
    using assms(4) by (simp split: option.splits)
  show step: "parse_loop fs2 fs33 xs i res =
              parse_loop fs2 fs33 xs (i + k) (res @ ts @ fa @ sm @ cm)"
    using parse_loop_step[OF assms(1) t, of "i + k - 1" "res @ ts @ fa @ sm" fs2 fs33
        "res @ ts @ fa @ sm @ cm"] f s c k
    by simp
  show "parse_elements fs2 fs33 xs = Inr (res @ ts @ fa @ sm @ cm @ rest)"
    if whole: "parse_elements fs2 fs33 (take i xs) = Inr res \<and>
          (\<forall>x\<in>set (take i xs). \<not> is_poke x) \<and>
          parse_elements fs2 fs33 (drop (i + k) xs) = Inr rest \<and>
          (\<forall>x\<in>set (drop (i + k) xs). \<not> is_poke x)"
  proof -
    have ik: "i + k \<le> length xs"
      using assms(1,4) by (auto split: option.splits)
    have "parse_elements fs2 fs33 (take i xs @ drop i xs) =
          parse_loop fs2 fs33 (take i xs @ drop i xs) (length (take i xs)) res"
      using whole by (intro parse_elements_prefix) auto
    then have "parse_elements fs2 fs33 xs = parse_loop fs2 fs33 xs i res"
      using assms(1) by simp
    also note step
    also have "parse_loop fs2 fs33 xs (i + k) (res @ ts @ fa @ sm @ cm) =
               parse_loop fs2 fs33 (drop (i + k) xs) 0 ((res @ ts @ fa @ sm @ cm) @ [])"
      using parse_loop_shift[of fs2 fs33 "take (i + k) xs" "drop (i + k) xs" 0
          "res @ ts @ fa @ sm @ cm"] ik
      by simp
    also have "\<dots> = Inr ((res @ ts @ fa @ sm @ cm) @ rest)"
      using whole by (subst parse_loop_acc) (auto simp: parse_elements_def)
    finally show ?thesis by simp
  qed
  show "parse_elements fs2 fs33 [(text_rec (bytes_lit ''hi''))\<lparr>face := Some \<lparr>index = 7\<rparr>\<rparr>] =
           Inr [TextElement (str_lit ''hi''), FaceElement 7]"
    by (simp add: run_defs)
qed

theorem tags_not_exclusive_witness:
  "parse_loop sample_fs2 sample_fs33
     [(text_rec (bytes_lit ''hi''))\<lparr>small_emoji := Some \<lparr>pack_id_sum = 42, image_type = 0\<rparr>,
        common_elem := Some \<lparr>service_type = 33, pb_elem = []\<rparr>\<rparr>,
      text_rec (bytes_lit ''caption''), face_rec 7] 0 [] =
   parse_loop sample_fs2 sample_fs33
     [(text_rec (bytes_lit ''hi''))\<lparr>small_emoji := Some \<lparr>pack_id_sum = 42, image_type = 0\<rparr>,
        common_elem := Some \<lparr>service_type = 33, pb_elem = []\<rparr>\<rparr>,
      text_rec (bytes_lit ''caption''), face_rec 7] (0 + 2)
     ([] @ [TextElement (str_lit ''hi'')] @ [] @
      [SmallEmojiElement 42 (str_lit ''caption'')] @ [FaceElement 9]) \<and>
   parse_elements sample_fs2 sample_fs33
     [(text_rec (bytes_lit ''hi''))\<lparr>small_emoji := Some \<lparr>pack_id_sum = 42, image_type = 0\<rparr>,
        common_elem := Some \<lparr>service_type = 33, pb_elem = []\<rparr>\<rparr>,
      text_rec (bytes_lit ''caption''), face_rec 7] =
     Inr ([] @ [TextElement (str_lit ''hi'')] @ [] @
          [SmallEmojiElement 42 (str_lit ''caption'')] @ [FaceElement 9] @ [FaceElement 7])"
proof -
  let ?xs = "[(text_rec (bytes_lit ''hi''))
                \<lparr>small_emoji := Some \<lparr>pack_id_sum = 42, image_type = 0\<rparr>,
                 common_elem := Some \<lparr>service_type = 33, pb_elem = []\<rparr>\<rparr>,
              text_rec (bytes_lit ''caption''), face_rec 7]"
  have h1: "0 < length ?xs"
    by simp
  have h2: "case text (?xs ! 0) of
              None \<Rightarrow> [TextElement (str_lit ''hi'')] = []
            | Some t \<Rightarrow> utf8_decode (str t) = Inr (str_lit ''hi'') \<and>
                [TextElement (str_lit ''hi'')] = [TextElement (str_lit ''hi'')]"
    by (simp add: sample_defs utf8_decode_hi)
  have h3: "[] = (case face (?xs ! 0) of None \<Rightarrow> [] | Some f \<Rightarrow> [FaceElement (index f)])"
    by (simp add: sample_defs)
  have h4: "case small_emoji (?xs ! 0) of
              None \<Rightarrow> [SmallEmojiElement 42 (str_lit ''caption'')] = [] \<and> (2 :: nat) = 1
            | Some se \<Rightarrow>
                0 + 1 < length ?xs \<and>
                utf8_decode (str (get_text (?xs ! (0 + 1)))) = Inr (str_lit ''caption'') \<and>
                [SmallEmojiElement 42 (str_lit ''caption'')] =
                  [SmallEmojiElement (pack_id_sum se) (str_lit ''caption'')] \<and>
                (2 :: nat) = 2"
    by (simp add: sample_defs get_text_def utf8_decode_caption)
  have h5: "case common_elem (?xs ! 0) of
              None \<Rightarrow> [FaceElement 9] = []
            | Some ce \<Rightarrow>
                service_type ce \<noteq> 2 \<and>
                (if service_type ce = 33
                 then sample_fs33 (pb_elem ce) = Inr \<lparr>info_index = 9\<rparr> \<and>
                      [FaceElement 9] = [FaceElement (info_index \<lparr>info_index = 9\<rparr>)]
                 else [FaceElement 9] = [])"
    by (simp add: sample_defs)
  have h6: "parse_elements sample_fs2 sample_fs33 (take 0 ?xs) = Inr [] \<and>
            (\<forall>x\<in>set (take 0 ?xs). \<not> is_poke x) \<and>
            parse_elements sample_fs2 sample_fs33 (drop (0 + 2) ?xs) = Inr [FaceElement 7] \<and>
            (\<forall>x\<in>set (drop (0 + 2) ?xs). \<not> is_poke x)"
    by (simp add: run_defs is_poke_def)
  note inst = tags_not_exclusive[where ?fs2.0 = sample_fs2 and res = "[]", OF h1 h2 h3 h4 h5]
  show ?thesis
    using inst[THEN conjunct1]
      inst[where rest = "[FaceElement 7]", THEN conjunct2, THEN conjunct1, THEN mp, OF h6]
    by (intro conjI)
qed

text \<open>
  The claim as stated fails: the record below has two of the tags set, \<^verbatim>\<open>text\<close> and a
  \<^verbatim>\<open>common_elem\<close> of service type 7, and yields one element, not two.
\<close>

theorem text_with_unknown_common_elem:
  "parse_elements sample_fs2 sample_fs33
     [(text_rec (bytes_lit ''a''))\<lparr>common_elem := Some \<lparr>service_type = 7, pb_elem = []\<rparr>\<rparr>] =
     Inr [TextElement (str_lit ''a'')]"
  by (simp add: run_defs)


end
